theory Spec2Isabelle
  imports Complex_Main "HOL-Library.Word" "HOL-Library.Product_Lexorder"
begin

section \<open>Python values used by \<^verbatim>\<open>scripts/create_icons.py\<close>\<close>

text \<open>
  Python integers are unbounded (\<open>int\<close>), \<open>//\<close> is floor division (\<open>div\<close> on \<open>int\<close>).
  A \<open>bytes\<close> object is a list of 8-bit words.  A \<open>str\<close> is a list of characters, each
  standing for the code point of the same number (0 to 255); the code points up to 127
  are the ASCII ones.  An exception is a value of \<open>py_error\<close>, and a computation that may
  raise returns \<open>py_error + 'a\<close> with \<open>Inl\<close> for the exception.
\<close>

type_synonym byte = "8 word"
type_synonym bytes = "byte list"

datatype py_error =
    ValueError
  | IndexError
  | UnicodeEncodeError
  | StructError
  | OSError

text \<open>
  \<^verbatim>\<open>struct.pack('>I', v)\<close>: four bytes, most significant first; \<^verbatim>\<open>struct.error\<close> when
  \<open>v\<close> is not an unsigned 32-bit value.
\<close>

definition uint32_be :: "int \<Rightarrow> bytes" where
  "uint32_be v =
     [word_of_int (v div 2 ^ 24), word_of_int (v div 2 ^ 16),
      word_of_int (v div 2 ^ 8), word_of_int v]"

definition struct_pack_I :: "int \<Rightarrow> py_error + bytes" where
  "struct_pack_I v =
     (if 0 \<le> v \<and> v < 2 ^ 32 then Inr (uint32_be v) else Inl StructError)"

text \<open>
  \<^verbatim>\<open>code.encode('ascii')\<close>: one byte per character; \<^verbatim>\<open>UnicodeEncodeError\<close> when a
  character is outside ASCII.
\<close>

definition encode_ascii :: "string \<Rightarrow> py_error + bytes" where
  "encode_ascii s =
     (if list_all (\<lambda>c. (of_char c :: nat) < 128) s
      then Inr (map of_char s)
      else Inl UnicodeEncodeError)"

text \<open>
  Reading a big-endian unsigned field back, as a consumer of the container does; it is
  the inverse of \<open>struct_pack_I\<close> and is used to state what a length field holds.
\<close>

definition be_uint :: "bytes \<Rightarrow> int" where
  "be_uint bs = foldl (\<lambda>acc b. acc * 256 + uint b) 0 bs"

section \<open>The runtime the script runs on\<close>

text \<open>
  The script computes coordinates and the alpha channel with Python floats and leaves the
  encoding of images to Pillow.  Neither is code of the script.  Both are parameters of the
  model, collected in one record: the float type \<open>'f\<close> with the operations the script uses,
  and Pillow's PNG and ICO writers as functions from what the script hands them to the
  bytes they write (or the exception they raise).
\<close>

type_synonym rgba = "int \<times> int \<times> int \<times> int"
type_synonym box = "int \<times> int \<times> int \<times> int"

text \<open>
  An image is what the script has told Pillow about it: the mode, the size and the colour
  \<^verbatim>\<open>Image.new\<close> fills every pixel with, and the drawing calls made on it, in order.
\<close>

datatype 'f shape =
    Ellipse box rgba
  | Line "'f \<times> 'f" "'f \<times> 'f" rgba int
  | Rectangle box rgba

record 'f image =
  im_mode :: string
  im_size :: "int \<times> int"
  im_color :: rgba
  im_drawn :: "'f shape list"

record 'f runtime =
  f_of_int :: "int \<Rightarrow> 'f"
  f_lit :: "rat \<Rightarrow> 'f"
  f_add :: "'f \<Rightarrow> 'f \<Rightarrow> 'f"
  f_sub :: "'f \<Rightarrow> 'f \<Rightarrow> 'f"
  f_mul :: "'f \<Rightarrow> 'f \<Rightarrow> 'f"
  f_div :: "'f \<Rightarrow> 'f \<Rightarrow> 'f"
  f_pow :: "'f \<Rightarrow> int \<Rightarrow> 'f"
  f_int :: "'f \<Rightarrow> int"
  save_png :: "'f image \<Rightarrow> py_error + bytes"
  save_ico :: "'f image \<Rightarrow> (int \<times> int) list \<Rightarrow> 'f image list \<Rightarrow> py_error + bytes"

text \<open>
  \<^verbatim>\<open>Image.new(mode, size, color)\<close> refuses a negative width or height with
  \<^verbatim>\<open>ValueError\<close>.
\<close>

definition Image_new :: "string \<Rightarrow> int \<times> int \<Rightarrow> rgba \<Rightarrow> py_error + 'f image" where
  "Image_new m sz c =
     (if fst sz < 0 \<or> snd sz < 0 then Inl ValueError
      else Inr \<lparr>im_mode = m, im_size = sz, im_color = c, im_drawn = []\<rparr>)"

text \<open>
  The drawing calls of \<^verbatim>\<open>ImageDraw\<close>.  \<^verbatim>\<open>ellipse\<close> and \<^verbatim>\<open>rectangle\<close> refuse a box whose
  second corner lies before the first (\<^verbatim>\<open>ValueError\<close>, current Pillow; older versions
  draw nothing); \<^verbatim>\<open>line\<close> accepts any two points.
\<close>

definition draw_ellipse :: "box \<Rightarrow> rgba \<Rightarrow> 'f image \<Rightarrow> py_error + 'f image" where
  "draw_ellipse b fill img =
     (case b of (x0, y0, x1, y1) \<Rightarrow>
        if x1 < x0 \<or> y1 < y0 then Inl ValueError
        else Inr (img\<lparr>im_drawn := im_drawn img @ [Ellipse b fill]\<rparr>))"

definition draw_rectangle :: "box \<Rightarrow> rgba \<Rightarrow> 'f image \<Rightarrow> py_error + 'f image" where
  "draw_rectangle b fill img =
     (case b of (x0, y0, x1, y1) \<Rightarrow>
        if x1 < x0 \<or> y1 < y0 then Inl ValueError
        else Inr (img\<lparr>im_drawn := im_drawn img @ [Rectangle b fill]\<rparr>))"

definition draw_line :: "'f \<times> 'f \<Rightarrow> 'f \<times> 'f \<Rightarrow> rgba \<Rightarrow> int \<Rightarrow> 'f image \<Rightarrow> 'f image" where
  "draw_line p q fill w img = img\<lparr>im_drawn := im_drawn img @ [Line p q fill w]\<rparr>"

section \<open>The rasterizer: \<^verbatim>\<open>create_base_icon\<close>\<close>

definition GRADIENT_ITERATIONS :: int where
  "GRADIENT_ITERATIONS = 10"

definition DEFAULT_ICON_SIZE :: int where
  "DEFAULT_ICON_SIZE = 512"

definition BRAND_COLOR :: "int \<times> int \<times> int" where
  "BRAND_COLOR = (0, 212, 255)"

text \<open>\<^verbatim>\<open>range(n)\<close> for an integer \<open>n\<close>.\<close>

definition py_range :: "int \<Rightarrow> int list" where
  "py_range n = [0..n - 1]"

text \<open>\<^verbatim>\<open>radius = max(1, center - i * 2)\<close>\<close>

definition gradient_radius :: "int \<Rightarrow> int \<Rightarrow> int" where
  "gradient_radius center i = max 1 (center - i * 2)"

text \<open>\<^verbatim>\<open>alpha = int(255 * (1 - i/GRADIENT_ITERATIONS))\<close>, in floats.\<close>

definition gradient_alpha :: "'f runtime \<Rightarrow> int \<Rightarrow> int" where
  "gradient_alpha R i =
     f_int R (f_mul R (f_of_int R 255)
       (f_sub R (f_of_int R 1) (f_div R (f_of_int R i) (f_of_int R GRADIENT_ITERATIONS))))"

text \<open>The body of the gradient loop for the remaining indices, on the image so far.\<close>

fun gradient_loop :: "'f runtime \<Rightarrow> int \<Rightarrow> int list \<Rightarrow> 'f image \<Rightarrow> py_error + 'f image" where
  "gradient_loop R center [] img = Inr img"
| "gradient_loop R center (i # rest) img =
     (let radius = gradient_radius center i in
      if radius > 0 then
        (let alpha = gradient_alpha R i;
             color = (case BRAND_COLOR of (r, g, b) \<Rightarrow> (r, g, b, alpha))
         in case draw_ellipse (center - radius, center - radius, center + radius, center + radius)
                   color img of
              Inl e \<Rightarrow> Inl e
            | Inr img' \<Rightarrow> gradient_loop R center rest img')
      else gradient_loop R center rest img)"

text \<open>
  The point of the snake's path for index \<open>i\<close>:
  \<^verbatim>\<open>t = i / 100\<close>, \<^verbatim>\<open>x = center + (size * 0.3) * (t - 0.5)\<close>,
  \<^verbatim>\<open>y = center + (size * 0.4) * ((t - 0.5) ** 3) * 8\<close>.
\<close>

definition snake_point :: "'f runtime \<Rightarrow> int \<Rightarrow> int \<Rightarrow> int \<Rightarrow> 'f \<times> 'f" where
  "snake_point R sz center i =
     (let t = f_div R (f_of_int R i) (f_of_int R 100);
          x = f_add R (f_of_int R center)
                (f_mul R (f_mul R (f_of_int R sz) (f_lit R (3 / 10)))
                         (f_sub R t (f_lit R (5 / 10))));
          y = f_add R (f_of_int R center)
                (f_mul R (f_mul R (f_mul R (f_of_int R sz) (f_lit R (4 / 10)))
                                  (f_pow R (f_sub R t (f_lit R (5 / 10))) 3))
                         (f_of_int R 8))
      in (x, y))"

text \<open>\<^verbatim>\<open>for i in range(len(points) - 1): draw.line([points[i], points[i+1]], ...)\<close>\<close>

fun line_loop :: "('f \<times> 'f) list \<Rightarrow> rgba \<Rightarrow> int \<Rightarrow> nat list \<Rightarrow> 'f image \<Rightarrow> 'f image" where
  "line_loop points fill w [] img = img"
| "line_loop points fill w (i # rest) img =
     line_loop points fill w rest (draw_line (points ! i) (points ! (i + 1)) fill w img)"

definition draw_snake :: "'f runtime \<Rightarrow> int \<Rightarrow> int \<Rightarrow> 'f image \<Rightarrow> py_error + 'f image" where
  "draw_snake R sz center img =
     (let snake_width = max 2 (sz div 8);
          snake_color = (255, 255, 255, 255);
          points = map (snake_point R sz center) (py_range 100);
          img1 = line_loop points snake_color snake_width [0..<length points - 1] img;
          eye_size = max 1 (sz div 20);
          eye_y = center - sz div 4
      in if eye_size > 0 then
           (case draw_ellipse (center - sz div 6 - eye_size, eye_y - eye_size,
                               center - sz div 6 + eye_size, eye_y + eye_size)
                   (255, 0, 100, 255) img1 of
              Inl e \<Rightarrow> Inl e
            | Inr img2 \<Rightarrow>
                draw_ellipse (center + sz div 6 - eye_size, eye_y - eye_size,
                              center + sz div 6 + eye_size, eye_y + eye_size)
                  (255, 0, 100, 255) img2)
         else Inr img1)"

definition draw_square :: "int \<Rightarrow> 'f image \<Rightarrow> py_error + 'f image" where
  "draw_square sz img =
     (let margin = sz div 4
      in draw_rectangle (margin, margin, sz - margin, sz - margin) (255, 255, 255, 255) img)"

definition create_base_icon :: "'f runtime \<Rightarrow> int \<Rightarrow> py_error + 'f image" where
  "create_base_icon R sz =
     (case Image_new ''RGBA'' (sz, sz) (0, 0, 0, 0) of
        Inl e \<Rightarrow> Inl e
      | Inr img \<Rightarrow>
          (let center = sz div 2 in
           case gradient_loop R center (py_range GRADIENT_ITERATIONS) img of
             Inl e \<Rightarrow> Inl e
           | Inr img1 \<Rightarrow>
               if sz \<ge> 32 then draw_snake R sz center img1
               else draw_square sz img1))"

section \<open>The Apple-icon packer: \<^verbatim>\<open>create_icns\<close>\<close>

definition icns_sizes :: "(int \<times> string) list" where
  "icns_sizes =
     [(16, ''ic04''), (32, ''ic05''), (64, ''ic06''), (128, ''ic07''), (256, ''ic08''),
      (512, ''ic09''), (1024, ''ic10''), (32, ''ic11''), (64, ''ic12''), (256, ''ic13''),
      (512, ''ic14'')]"

text \<open>\<^verbatim>\<open>icns_data = b'icns'\<close>\<close>

definition icns_data :: bytes where
  "icns_data = map of_char ''icns''"

text \<open>
  \<^verbatim>\<open>png_data\<close> of one pass of the loop: the icon of that size, saved as PNG into a buffer.
\<close>

definition png_data :: "'f runtime \<Rightarrow> int \<Rightarrow> py_error + bytes" where
  "png_data R sz =
     (case create_base_icon R sz of
        Inl e \<Rightarrow> Inl e
      | Inr img \<Rightarrow> save_png R img)"

text \<open>
  \<^verbatim>\<open>element = code.encode('ascii') + struct.pack('>I', len(png_data) + 8) + png_data\<close>
\<close>

definition icns_element :: "'f runtime \<Rightarrow> int \<times> string \<Rightarrow> py_error + bytes" where
  "icns_element R entry =
     (case entry of (sz, code) \<Rightarrow>
        (case png_data R sz of
           Inl e \<Rightarrow> Inl e
         | Inr png \<Rightarrow>
             (case encode_ascii code of
                Inl e \<Rightarrow> Inl e
              | Inr c \<Rightarrow>
                  (case struct_pack_I (int (length png) + 8) of
                     Inl e \<Rightarrow> Inl e
                   | Inr n \<Rightarrow> Inr (c @ n @ png)))))"

text \<open>\<^verbatim>\<open>for size, code in icns_sizes: ...; temp_data += element\<close>\<close>

fun icns_loop :: "'f runtime \<Rightarrow> (int \<times> string) list \<Rightarrow> bytes \<Rightarrow> py_error + bytes" where
  "icns_loop R [] temp_data = Inr temp_data"
| "icns_loop R (entry # rest) temp_data =
     (case icns_element R entry of
        Inl e \<Rightarrow> Inl e
      | Inr element \<Rightarrow> icns_loop R rest (temp_data @ element))"

text \<open>
  The bytes \<^verbatim>\<open>create_icns\<close> builds from a table of (size, code) entries:
  \<^verbatim>\<open>total_size = len(temp_data) + 8\<close>,
  \<^verbatim>\<open>icns_file = icns_data + struct.pack('>I', total_size) + temp_data\<close>.
\<close>

definition icns_file :: "'f runtime \<Rightarrow> (int \<times> string) list \<Rightarrow> py_error + bytes" where
  "icns_file R table =
     (case icns_loop R table [] of
        Inl e \<Rightarrow> Inl e
      | Inr temp_data \<Rightarrow>
          (let total_size = int (length temp_data) + 8 in
           case struct_pack_I total_size of
             Inl e \<Rightarrow> Inl e
           | Inr n \<Rightarrow> Inr (icns_data @ n @ temp_data)))"

section \<open>The Windows-icon packer: \<^verbatim>\<open>create_ico\<close>\<close>

definition ico_sizes :: "int list" where
  "ico_sizes = [16, 32, 48, 64, 128, 256]"

text \<open>\<^verbatim>\<open>images = [create_base_icon(size) for size in sizes]\<close>\<close>

fun base_icons :: "'f runtime \<Rightarrow> int list \<Rightarrow> py_error + 'f image list" where
  "base_icons R [] = Inr []"
| "base_icons R (sz # rest) =
     (case create_base_icon R sz of
        Inl e \<Rightarrow> Inl e
      | Inr img \<Rightarrow>
          (case base_icons R rest of
             Inl e \<Rightarrow> Inl e
           | Inr imgs \<Rightarrow> Inr (img # imgs)))"

text \<open>
  The bytes Pillow writes for
  \<^verbatim>\<open>images[0].save(output_path, format='ICO', sizes=[(s, s) for s in sizes], append_images=images[1:])\<close>;
  \<^verbatim>\<open>images[0]\<close> of an empty list raises \<^verbatim>\<open>IndexError\<close>.
\<close>

definition ico_file :: "'f runtime \<Rightarrow> int list \<Rightarrow> py_error + bytes" where
  "ico_file R sizes =
     (case base_icons R sizes of
        Inl e \<Rightarrow> Inl e
      | Inr images \<Rightarrow>
          (case images of
             [] \<Rightarrow> Inl IndexError
           | first # others \<Rightarrow> save_ico R first (map (\<lambda>s. (s, s)) sizes) others))"

section \<open>Files\<close>

text \<open>
  The part of the file system the three functions touch: the content of each file.
  Writing a file (mode \<^verbatim>\<open>'wb'\<close>, and Pillow's \<^verbatim>\<open>save\<close> to a path) replaces its content.
  Failures of the operating system (permissions, a full disk, a missing directory) are
  not part of the model, and neither is the text printed to the console.
\<close>

record world =
  files :: "string \<rightharpoonup> bytes"

definition write_file :: "string \<Rightarrow> bytes \<Rightarrow> world \<Rightarrow> world" where
  "write_file p content w = w\<lparr>files := (files w)(p \<mapsto> content)\<rparr>"

definition create_ico :: "'f runtime \<Rightarrow> string \<Rightarrow> world \<Rightarrow> py_error + world" where
  "create_ico R output_path w =
     (case ico_file R ico_sizes of
        Inl e \<Rightarrow> Inl e
      | Inr content \<Rightarrow> Inr (write_file output_path content w))"

definition create_icns :: "'f runtime \<Rightarrow> string \<Rightarrow> world \<Rightarrow> py_error + world" where
  "create_icns R output_path w =
     (case icns_file R icns_sizes of
        Inl e \<Rightarrow> Inl e
      | Inr content \<Rightarrow> Inr (write_file output_path content w))"

definition create_png :: "'f runtime \<Rightarrow> string \<Rightarrow> int \<Rightarrow> world \<Rightarrow> py_error + world" where
  "create_png R output_path sz w =
     (case create_base_icon R sz of
        Inl e \<Rightarrow> Inl e
      | Inr img \<Rightarrow>
          (case save_png R img of
             Inl e \<Rightarrow> Inl e
           | Inr content \<Rightarrow> Inr (write_file output_path content w)))"

section \<open>A runtime to evaluate the model on\<close>

text \<open>
  The theorems below hold for every runtime.  To evaluate the model on concrete inputs
  one instance is fixed: exact rational arithmetic in place of floats, and writers that
  emit only the signature of their format.
\<close>

definition png_signature :: bytes where
  "png_signature = [137, 80, 78, 71, 13, 10, 26, 10]"

definition sample_runtime :: "rat runtime" where
  "sample_runtime =
     \<lparr>f_of_int = of_int, f_lit = (\<lambda>q. q),
      f_add = (\<lambda>x y. x + y), f_sub = (\<lambda>x y. x - y),
      f_mul = (\<lambda>x y. x * y), f_div = (\<lambda>x y. x / y),
      f_pow = (\<lambda>x n. x ^ nat n),
      f_int = (\<lambda>x. if x < 0 then - \<lfloor>- x\<rfloor> else \<lfloor>x\<rfloor>),
      save_png = (\<lambda>img. Inr png_signature),
      save_ico = (\<lambda>first sizes others. Inr [0, 0, 1, 0])\<rparr>"

section \<open>Notions used to state the properties\<close>

definition is_ascii :: "string \<Rightarrow> bool" where
  "is_ascii s = list_all (\<lambda>c. (of_char c :: nat) < 128) s"

text \<open>The ellipse the gradient loop draws for index \<open>i\<close>.\<close>

definition gradient_ellipse :: "'f runtime \<Rightarrow> int \<Rightarrow> int \<Rightarrow> 'f shape" where
  "gradient_ellipse R center i =
     (let radius = gradient_radius center i
      in Ellipse (center - radius, center - radius, center + radius, center + radius)
           (0, 212, 255, gradient_alpha R i))"

text \<open>An ellipse whose bounding box has a positive width and height.\<close>

fun proper_ellipse :: "'f shape \<Rightarrow> bool" where
  "proper_ellipse (Ellipse (x0, y0, x1, y1) fill) = (x0 < x1 \<and> y0 < y1)"
| "proper_ellipse (Line p q fill w) = False"
| "proper_ellipse (Rectangle b fill) = False"

text \<open>An RGBA image of \<open>sz\<close> by \<open>sz\<close> pixels, every pixel initialised.\<close>

definition canvas :: "int \<Rightarrow> 'f image \<Rightarrow> bool" where
  "canvas sz img =
     (im_mode img = ''RGBA'' \<and> im_size img = (sz, sz) \<and> im_color img = (0, 0, 0, 0))"

text \<open>
  An entry of the table packs to an element with payload \<open>png\<close>: the icon of that size
  is drawn and encoded to \<open>png\<close>, the code is ASCII, and the element's length fits its field.
\<close>

definition well_packed :: "'f runtime \<Rightarrow> int \<times> string \<Rightarrow> bytes \<Rightarrow> bool" where
  "well_packed R entry png =
     (case entry of (sz, code) \<Rightarrow>
        png_data R sz = Inr png \<and> is_ascii code \<and> int (length png) + 8 < 2 ^ 32)"

definition element_of :: "int \<times> string \<Rightarrow> bytes \<Rightarrow> bytes" where
  "element_of entry png =
     (case entry of (sz, code) \<Rightarrow>
        map of_char code @ uint32_be (int (length png) + 8) @ png)"

text \<open>
  \<open>payload\<close> is the PNG encoding of the bitmap of size \<open>sz\<close>: the rasterizer returns an
  image for \<open>sz\<close> and Pillow's PNG writer, given that image, returns \<open>payload\<close>.
\<close>

definition is_png_of :: "'f runtime \<Rightarrow> int \<Rightarrow> bytes \<Rightarrow> bool" where
  "is_png_of R sz payload =
     (case create_base_icon R sz of
        Inl e \<Rightarrow> False
      | Inr img \<Rightarrow> save_png R img = Inr payload)"

text \<open>
  The layout of one element as a reader of the container sees it: the code, a four-byte
  big-endian length equal to 8 plus the length of the payload, and the payload, which is
  the PNG encoding of the bitmap of the entry's size.
\<close>

definition is_element :: "'f runtime \<Rightarrow> int \<times> string \<Rightarrow> bytes \<Rightarrow> bool" where
  "is_element R entry element =
     (case entry of (sz, code) \<Rightarrow>
        length code + 4 \<le> length element
        \<and> is_ascii code
        \<and> take (length code) element = map of_char code
        \<and> be_uint (take 4 (drop (length code) element))
            = 8 + int (length (drop (length code + 4) element))
        \<and> is_png_of R sz (drop (length code + 4) element))"

text \<open>
  Which of the requested sizes Pillow's ICO writer gives a directory entry, by the rule
  Pillow documents for the \<^verbatim>\<open>sizes\<close> argument of \<^verbatim>\<open>save\<close>: ``any sizes bigger than the
  original size or 256 will be ignored'', the original being the image \<^verbatim>\<open>save\<close> is called
  on.  The writer goes through \<^verbatim>\<open>sorted(set(sizes))\<close>, so the sizes it keeps come in
  increasing order and once each.  The rule is Pillow's, not the script's; it is used
  only to evaluate the call \<^verbatim>\<open>create_ico\<close> makes.
\<close>

definition pillow_ico_sizes :: "'f image \<Rightarrow> (int \<times> int) list \<Rightarrow> (int \<times> int) list" where
  "pillow_ico_sizes first sizes =
     filter (\<lambda>(w, h). w \<le> fst (im_size first) \<and> h \<le> snd (im_size first)
                        \<and> w \<le> 256 \<and> h \<le> 256) (sort (remdups sizes))"

section \<open>Bytes\<close>

lemma uint_byte_of_int: "uint (word_of_int k :: byte) = k mod 256"
  by (simp add: uint_word_of_int)

lemma base_256_digits:
  fixes v :: int
  assumes "0 \<le> v" "v < 2 ^ 32"
  shows "((v div 2 ^ 24 mod 256 * 256 + v div 2 ^ 16 mod 256) * 256 + v div 2 ^ 8 mod 256) * 256
           + v mod 256 = v"
proof -
  define q1 where "q1 = v div 256"
  define q2 where "q2 = q1 div 256"
  define q3 where "q3 = q2 div 256"
  have e1: "v div 2 ^ 8 = q1" by (simp add: q1_def)
  have e2: "v div 2 ^ 16 = q2" unfolding q2_def q1_def by (simp add: zdiv_zmult2_eq)
  have e3: "v div 2 ^ 24 = q3" unfolding q3_def q2_def q1_def by (simp add: zdiv_zmult2_eq)
  have "q3 < 256" "0 \<le> q3" using assms unfolding e3 [symmetric] by simp_all
  then have m3: "q3 mod 256 = q3" by simp
  have d0: "q1 * 256 + v mod 256 = v" unfolding q1_def by (rule div_mult_mod_eq)
  have d1: "q2 * 256 + q1 mod 256 = q1" unfolding q2_def by (rule div_mult_mod_eq)
  have d2: "q3 * 256 + q2 mod 256 = q2" unfolding q3_def by (rule div_mult_mod_eq)
  show ?thesis unfolding e1 e2 e3 m3 d2 d1 d0 ..
qed

lemma length_uint32_be: "length (uint32_be v) = 4"
  by (simp add: uint32_be_def)

lemma be_uint_uint32_be:
  assumes "0 \<le> v" "v < 2 ^ 32"
  shows "be_uint (uint32_be v) = v"
proof -
  have "be_uint (uint32_be v) =
      ((v div 2 ^ 24 mod 256 * 256 + v div 2 ^ 16 mod 256) * 256 + v div 2 ^ 8 mod 256) * 256
        + v mod 256"
    unfolding uint32_be_def be_uint_def foldl.simps uint_byte_of_int
    by (simp only: mult_zero_left add_0)
  then show ?thesis by (simp only: base_256_digits [OF assms])
qed

section \<open>The rasterizer\<close>

lemma gradient_radius_ge_1: "1 \<le> gradient_radius center i"
  by (simp add: gradient_radius_def)

lemma gradient_loop_Inr:
  "gradient_loop R center ns img =
     Inr (img\<lparr>im_drawn := im_drawn img @ map (gradient_ellipse R center) ns\<rparr>)"
proof (induction ns arbitrary: img)
  case Nil
  show ?case by simp
next
  case (Cons i rest)
  have r: "0 < gradient_radius center i"
    using gradient_radius_ge_1 [of center i] by linarith
  show ?case
    using r by (simp add: Cons.IH draw_ellipse_def BRAND_COLOR_def gradient_ellipse_def Let_def)
qed

lemma proper_gradient_ellipse: "proper_ellipse (gradient_ellipse R center i)"
  using gradient_radius_ge_1 [of center i]
  by (simp add: gradient_ellipse_def Let_def)

lemma length_py_range: "0 \<le> n \<Longrightarrow> length (py_range n) = nat n"
  by (simp add: py_range_def)

lemma line_loop_canvas: "canvas sz (line_loop pts fill w ns img) = canvas sz img"
  by (induction ns arbitrary: img) (simp_all add: canvas_def draw_line_def)

lemma line_loop_length:
  "length (im_drawn (line_loop pts fill w ns img)) = length (im_drawn img) + length ns"
  by (induction ns arbitrary: img) (simp_all add: draw_line_def)

lemma draw_snake_Inr:
  "\<exists>img'. draw_snake R sz center img = Inr img' \<and> canvas sz' img' = canvas sz' img
      \<and> length (im_drawn img') = length (im_drawn img) + 101"
proof -
  have e: "0 < max 1 (sz div 20)" by simp
  show ?thesis
    unfolding draw_snake_def Let_def
    using e
    by (simp add: draw_ellipse_def line_loop_length length_py_range canvas_def
        line_loop_canvas [unfolded canvas_def])
qed

lemma draw_square_Inr:
  assumes "0 \<le> sz"
  shows "\<exists>img'. draw_square sz img = Inr img' \<and> canvas sz' img' = canvas sz' img
      \<and> length (im_drawn img') = length (im_drawn img) + 1"
proof -
  have "sz div 4 \<le> sz - sz div 4" using assms by linarith
  then show ?thesis
    by (simp add: draw_square_def draw_rectangle_def canvas_def Let_def)
qed

lemma create_base_icon_Inr:
  assumes "0 \<le> sz"
  shows "\<exists>img. create_base_icon R sz = Inr img \<and> canvas sz img
     \<and> length (im_drawn img) = (if 32 \<le> sz then 111 else 11)"
proof -
  define img0 :: "'a image" where
    "img0 = \<lparr>im_mode = ''RGBA'', im_size = (sz, sz), im_color = (0, 0, 0, 0), im_drawn = []\<rparr>"
  define img1 where
    "img1 = img0\<lparr>im_drawn := im_drawn img0
               @ map (gradient_ellipse R (sz div 2)) (py_range GRADIENT_ITERATIONS)\<rparr>"
  have new: "Image_new ''RGBA'' (sz, sz) (0, 0, 0, 0) = Inr img0"
    using assms by (simp add: Image_new_def img0_def)
  have c1: "canvas sz img1" by (simp add: canvas_def img1_def img0_def)
  have l1: "length (im_drawn img1) = 10"
    by (simp add: img1_def img0_def length_py_range GRADIENT_ITERATIONS_def)
  have unfold: "create_base_icon R sz =
      (if 32 \<le> sz then draw_snake R sz (sz div 2) img1 else draw_square sz img1)"
    by (simp add: create_base_icon_def new gradient_loop_Inr img1_def Let_def)
  show ?thesis
  proof (cases "32 \<le> sz")
    case True
    obtain img' where "draw_snake R sz (sz div 2) img1 = Inr img'"
      and "canvas sz img' = canvas sz img1"
      and "length (im_drawn img') = length (im_drawn img1) + 101"
      using draw_snake_Inr [of R sz "sz div 2" img1 sz] by blast
    then show ?thesis using True c1 l1 unfold by simp
  next
    case False
    obtain img' where "draw_square sz img1 = Inr img'"
      and "canvas sz img' = canvas sz img1"
      and "length (im_drawn img') = length (im_drawn img1) + 1"
      using draw_square_Inr [OF assms, of img1 sz] by blast
    then show ?thesis using False c1 l1 unfold by simp
  qed
qed

lemma create_base_icon_negative: "sz < 0 \<Longrightarrow> create_base_icon R sz = Inl ValueError"
  by (simp add: create_base_icon_def Image_new_def)

section \<open>The Apple-icon packer\<close>

lemma png_data_Inr: "png_data R sz = Inr payload \<longleftrightarrow> is_png_of R sz payload"
  by (simp add: png_data_def is_png_of_def split: sum.splits)

lemma icns_element_Inr:
  "icns_element R entry = Inr element \<longleftrightarrow>
     (\<exists>png. well_packed R entry png \<and> element = element_of entry png)"
  by (cases entry)
    (auto simp: icns_element_def encode_ascii_def is_ascii_def struct_pack_I_def
      well_packed_def element_of_def split: sum.splits if_splits)

lemma icns_loop_Inr:
  "icns_loop R table acc = Inr out \<longleftrightarrow>
     (\<exists>pngs. list_all2 (well_packed R) table pngs
        \<and> out = acc @ concat (map2 element_of table pngs))"
proof (induction table arbitrary: acc)
  case Nil
  show ?case by auto
next
  case (Cons entry rest)
  show ?case
  proof
    assume "icns_loop R (entry # rest) acc = Inr out"
    then obtain element where el: "icns_element R entry = Inr element"
      and rest: "icns_loop R rest (acc @ element) = Inr out"
      by (auto split: sum.splits)
    from el obtain png where png: "well_packed R entry png" "element = element_of entry png"
      by (auto simp: icns_element_Inr)
    from rest obtain pngs where pngs: "list_all2 (well_packed R) rest pngs"
       "out = (acc @ element) @ concat (map2 element_of rest pngs)"
      unfolding Cons.IH by blast
    have "list_all2 (well_packed R) (entry # rest) (png # pngs)" using png pngs by simp
    moreover have "out = acc @ concat (map2 element_of (entry # rest) (png # pngs))"
      using png pngs by simp
    ultimately show "\<exists>pngs. list_all2 (well_packed R) (entry # rest) pngs
        \<and> out = acc @ concat (map2 element_of (entry # rest) pngs)"
      by blast
  next
    assume "\<exists>pngs. list_all2 (well_packed R) (entry # rest) pngs
        \<and> out = acc @ concat (map2 element_of (entry # rest) pngs)"
    then obtain pngs where a: "list_all2 (well_packed R) (entry # rest) pngs"
      and out: "out = acc @ concat (map2 element_of (entry # rest) pngs)" by blast
    from a obtain png pngs' where p: "pngs = png # pngs'" "well_packed R entry png"
      "list_all2 (well_packed R) rest pngs'"
      by (auto simp: list_all2_Cons1)
    have el: "icns_element R entry = Inr (element_of entry png)"
      using p by (auto simp: icns_element_Inr)
    have "icns_loop R rest (acc @ element_of entry png) = Inr out"
      unfolding Cons.IH using p out by auto
    then show "icns_loop R (entry # rest) acc = Inr out" using el by simp
  qed
qed

lemma icns_file_Inr:
  "icns_file R table = Inr blob \<longleftrightarrow>
     (\<exists>pngs. list_all2 (well_packed R) table pngs
        \<and> int (length (concat (map2 element_of table pngs))) + 8 < 2 ^ 32
        \<and> blob = icns_data @ uint32_be (int (length (concat (map2 element_of table pngs))) + 8)
                    @ concat (map2 element_of table pngs))"
  (is "?lhs \<longleftrightarrow> ?rhs")
proof
  assume ?lhs
  then obtain temp_data where loop: "icns_loop R table [] = Inr temp_data"
    and fits: "int (length temp_data) + 8 < 2 ^ 32"
    and blob: "blob = icns_data @ uint32_be (int (length temp_data) + 8) @ temp_data"
    by (auto simp: icns_file_def struct_pack_I_def Let_def split: sum.splits if_splits)
  from loop obtain pngs where "list_all2 (well_packed R) table pngs"
    "temp_data = concat (map2 element_of table pngs)"
    by (auto simp: icns_loop_Inr)
  with fits blob show ?rhs by blast
next
  assume ?rhs
  then obtain pngs where a: "list_all2 (well_packed R) table pngs"
    and fits: "int (length (concat (map2 element_of table pngs))) + 8 < 2 ^ 32"
    and blob: "blob = icns_data
        @ uint32_be (int (length (concat (map2 element_of table pngs))) + 8)
        @ concat (map2 element_of table pngs)"
    by blast
  have "icns_loop R table [] = Inr (concat (map2 element_of table pngs))"
    unfolding icns_loop_Inr using a by auto
  then show ?lhs using fits blob
    by (simp add: icns_file_def struct_pack_I_def Let_def)
qed

lemma is_element_element_of:
  assumes "well_packed R entry png"
  shows "is_element R entry (element_of entry png)"
proof -
  obtain sz code where entry: "entry = (sz, code)" by (cases entry)
  from assms have p: "png_data R sz = Inr png" "is_ascii code" "int (length png) + 8 < 2 ^ 32"
    by (simp_all add: well_packed_def entry)
  have "be_uint (uint32_be (int (length png) + 8)) = int (length png) + 8"
    using p(3) by (intro be_uint_uint32_be) simp_all
  then show ?thesis
    using p by (simp add: is_element_def element_of_def entry length_uint32_be png_data_Inr)
qed

lemma list_all2_is_element:
  "list_all2 (well_packed R) table pngs \<Longrightarrow>
     list_all2 (is_element R) table (map2 element_of table pngs)"
  by (induction rule: list_all2_induct) (simp_all add: is_element_element_of)

lemma length_element_of:
  "int (length (element_of entry png)) = int (length (snd entry)) + 4 + int (length png)"
  by (cases entry) (simp add: element_of_def length_uint32_be)


lemma length_concat_elements_4:
  "list_all2 P table pngs \<Longrightarrow> list_all (\<lambda>(sz, code). length code = 4) table \<Longrightarrow>
     int (length (concat (map2 element_of table pngs))) = (\<Sum>png\<leftarrow>pngs. 8 + int (length png))"
  by (induction rule: list_all2_induct) (auto simp: length_element_of)

lemma length_icns_data: "length icns_data = 4"
  by (simp add: icns_data_def)

section \<open>The Windows-icon packer\<close>

lemma base_icons_Inr:
  "list_all (\<lambda>sz. 0 \<le> sz) sizes \<Longrightarrow>
     \<exists>imgs. base_icons R sizes = Inr imgs \<and> list_all2 canvas sizes imgs"
proof (induction sizes)
  case Nil
  show ?case by simp
next
  case (Cons sz rest)
  then obtain imgs where rest: "base_icons R rest = Inr imgs" "list_all2 canvas rest imgs"
    by auto
  from Cons.prems obtain img where img: "create_base_icon R sz = Inr img" "canvas sz img"
    using create_base_icon_Inr [of sz R] by auto
  show ?case using rest img by simp
qed

section \<open>The sample runtime\<close>

lemma png_data_sample: "0 \<le> sz \<Longrightarrow> png_data sample_runtime sz = Inr png_signature"
  using create_base_icon_Inr [of sz sample_runtime]
  by (auto simp: png_data_def sample_runtime_def)

lemma well_packed_sample:
  "0 \<le> sz \<Longrightarrow> is_ascii code \<Longrightarrow> well_packed sample_runtime (sz, code) png_signature"
  by (simp add: well_packed_def png_data_sample png_signature_def)

lemma icns_file_sample:
  "\<exists>blob. icns_file sample_runtime icns_sizes = Inr blob"
proof -
  have "list_all2 (well_packed sample_runtime) icns_sizes (replicate 11 png_signature)"
    by (simp add: icns_sizes_def numeral_eq_Suc well_packed_sample is_ascii_def)
  moreover have "int (length (concat (map2 element_of icns_sizes (replicate 11 png_signature)))) + 8 < 2 ^ 32"
    by (simp add: icns_sizes_def numeral_eq_Suc element_of_def length_uint32_be png_signature_def)
  ultimately show ?thesis unfolding icns_file_Inr by blast
qed

lemma icns_file_one_sample:
  "\<exists>blob. icns_file sample_runtime [(16, ''ic04'')] = Inr blob"
proof -
  have "list_all2 (well_packed sample_runtime) [(16, ''ic04'')] [png_signature]"
    by (simp add: well_packed_sample is_ascii_def)
  moreover have "int (length (concat (map2 element_of [(16 :: int, ''ic04'')] [png_signature]))) + 8
      < 2 ^ 32"
    by (simp add: element_of_def length_uint32_be png_signature_def)
  ultimately show ?thesis unfolding icns_file_Inr by blast
qed

section \<open>Properties of the Apple-icon packer\<close>

text \<open>
  Claim C1.  For a table of (size, code) entries whose codes have four characters each,
  among them every table of a single such entry and the fixed table of eleven, whenever
  the packer returns a blob the four-byte big-endian field after the magic tag holds
  8 plus the sum over the elements of 8 plus the length of the element's payload, the
  payload being the PNG encoding of the bitmap of the entry's size; and this number is the
  byte length of the whole blob.
\<close>

theorem icns_total_size:
  assumes "icns_file R table = Inr blob"
    and "list_all (\<lambda>(sz, code). length code = 4) table"
  shows "\<exists>pngs. list_all2 (\<lambda>(sz, code) png. is_png_of R sz png) table pngs
           \<and> be_uint (take 4 (drop 4 blob)) = 8 + (\<Sum>png\<leftarrow>pngs. 8 + int (length png))
           \<and> int (length blob) = 8 + (\<Sum>png\<leftarrow>pngs. 8 + int (length png))"
proof -
  from assms(1) obtain pngs where packed: "list_all2 (well_packed R) table pngs"
    and fits: "int (length (concat (map2 element_of table pngs))) + 8 < 2 ^ 32"
    and blob: "blob = icns_data @ uint32_be (int (length (concat (map2 element_of table pngs))) + 8)
                    @ concat (map2 element_of table pngs)"
    unfolding icns_file_Inr by blast
  define temp_data where "temp_data = concat (map2 element_of table pngs)"
  have blob': "blob = icns_data @ uint32_be (int (length temp_data) + 8) @ temp_data"
    using blob by (simp add: temp_data_def)
  have len: "int (length blob) = int (length temp_data) + 8"
    by (simp add: blob' length_icns_data length_uint32_be)
  have "take 4 (drop 4 blob) = uint32_be (int (length temp_data) + 8)"
    by (simp add: blob' length_icns_data length_uint32_be)
  moreover have "be_uint (uint32_be (int (length temp_data) + 8)) = int (length temp_data) + 8"
    using fits by (intro be_uint_uint32_be) (simp_all add: temp_data_def)
  ultimately have total: "be_uint (take 4 (drop 4 blob)) = int (length blob)"
    using len by simp
  have payloads: "list_all2 (\<lambda>(sz, code) png. is_png_of R sz png) table pngs"
    using packed by (rule list_all2_mono) (auto simp: well_packed_def png_data_Inr)
  have sum: "int (length blob) = 8 + (\<Sum>png\<leftarrow>pngs. 8 + int (length png))"
    using length_concat_elements_4 [OF packed assms(2)] len by (simp add: temp_data_def)
  from total payloads sum show ?thesis by auto
qed

text \<open>
  C1 on a table of one entry and on the fixed table of eleven, with the sample runtime.
\<close>

theorem icns_total_size_witness:
  "(\<exists>blob pngs. icns_file sample_runtime [(16, ''ic04'')] = Inr blob
      \<and> list_all (\<lambda>(sz, code). length code = 4) [(16 :: int, ''ic04'')]
      \<and> list_all2 (\<lambda>(sz, code) png. is_png_of sample_runtime sz png) [(16, ''ic04'')] pngs
      \<and> be_uint (take 4 (drop 4 blob)) = 8 + (\<Sum>png\<leftarrow>pngs. 8 + int (length png))
      \<and> int (length blob) = 8 + (\<Sum>png\<leftarrow>pngs. 8 + int (length png)))
   \<and> (\<exists>blob pngs. icns_file sample_runtime icns_sizes = Inr blob
      \<and> list_all (\<lambda>(sz, code). length code = 4) icns_sizes
      \<and> list_all2 (\<lambda>(sz, code) png. is_png_of sample_runtime sz png) icns_sizes pngs
      \<and> be_uint (take 4 (drop 4 blob)) = 8 + (\<Sum>png\<leftarrow>pngs. 8 + int (length png))
      \<and> int (length blob) = 8 + (\<Sum>png\<leftarrow>pngs. 8 + int (length png)))"
proof -
  obtain one where one: "icns_file sample_runtime [(16, ''ic04'')] = Inr one"
    using icns_file_one_sample by blast
  have one4: "list_all (\<lambda>(sz, code). length code = 4) [(16 :: int, ''ic04'')]"
    by simp
  obtain blob where blob: "icns_file sample_runtime icns_sizes = Inr blob"
    using icns_file_sample by blast
  have four: "list_all (\<lambda>(sz, code). length code = 4) icns_sizes"
    by (simp add: icns_sizes_def)
  show ?thesis
    using icns_total_size [OF one one4] icns_total_size [OF blob four] one one4 blob four
    by blast
qed

text \<open>
  Claim C2.  Whenever the packer returns a blob for a table, the blob is the magic tag
  \<open>icns\<close>, then a four-byte big-endian field holding the byte length of the whole blob,
  then one element per entry of the table, in the order of the table.  Each element is
  the entry's code in ASCII, one byte per character and nothing after it, then a four-byte
  big-endian field holding 8 plus the length of the payload, then the payload, which is
  what Pillow's PNG writer returns for the image the rasterizer returns for the entry's
  size.
\<close>

theorem icns_file_layout:
  assumes "icns_file R table = Inr blob"
  shows "take 4 blob = map of_char ''icns''
       \<and> be_uint (take 4 (drop 4 blob)) = int (length blob)
       \<and> (\<exists>elements. drop 8 blob = concat elements \<and> list_all2 (is_element R) table elements)"
proof -
  from assms obtain pngs where packed: "list_all2 (well_packed R) table pngs"
    and fits: "int (length (concat (map2 element_of table pngs))) + 8 < 2 ^ 32"
    and blob: "blob = icns_data @ uint32_be (int (length (concat (map2 element_of table pngs))) + 8)
                    @ concat (map2 element_of table pngs)"
    unfolding icns_file_Inr by blast
  define temp_data where "temp_data = concat (map2 element_of table pngs)"
  have blob': "blob = icns_data @ uint32_be (int (length temp_data) + 8) @ temp_data"
    using blob by (simp add: temp_data_def)
  have len: "int (length blob) = int (length temp_data) + 8"
    by (simp add: blob' length_icns_data length_uint32_be)
  have magic: "take 4 blob = map of_char ''icns''"
    by (simp add: blob' icns_data_def)
  have "take 4 (drop 4 blob) = uint32_be (int (length temp_data) + 8)"
    by (simp add: blob' length_icns_data length_uint32_be)
  moreover have "be_uint (uint32_be (int (length temp_data) + 8)) = int (length temp_data) + 8"
    using fits by (intro be_uint_uint32_be) (simp_all add: temp_data_def)
  ultimately have total: "be_uint (take 4 (drop 4 blob)) = int (length blob)"
    using len by simp
  have "drop 8 blob = temp_data"
    by (simp add: blob' length_icns_data length_uint32_be)
  then have "drop 8 blob = concat (map2 element_of table pngs)
      \<and> list_all2 (is_element R) table (map2 element_of table pngs)"
    using list_all2_is_element [OF packed] by (simp add: temp_data_def)
  then show ?thesis using magic total by blast
qed

text \<open>
  C2 on the fixed table of eleven entries, with the sample runtime.
\<close>

theorem icns_file_layout_witness:
  "\<exists>blob. icns_file sample_runtime icns_sizes = Inr blob
     \<and> take 4 blob = map of_char ''icns''
     \<and> be_uint (take 4 (drop 4 blob)) = int (length blob)
     \<and> (\<exists>elements. drop 8 blob = concat elements
           \<and> list_all2 (is_element sample_runtime) icns_sizes elements)"
proof -
  obtain blob where blob: "icns_file sample_runtime icns_sizes = Inr blob"
    using icns_file_sample by blast
  show ?thesis
    using icns_file_layout [OF blob] blob by blast
qed




text \<open>
  Claim C3.  The table \<^verbatim>\<open>create_icns\<close> packs is the fixed one of eleven entries: the
  sizes 16, 32, 64, 128, 256, 512, 1024 under the codes \<open>ic04\<close> to \<open>ic10\<close>, then 32, 64,
  256, 512 again under \<open>ic11\<close> to \<open>ic14\<close>.  No code occurs twice, while the sizes 32, 64,
  256 and 512 occur twice each and 16, 128 and 1024 once: the codes are the keys, not the
  sizes.  \<^verbatim>\<open>create_icns\<close> writes what the packer makes of exactly this table.
\<close>

theorem icns_sizes_table:
  "map fst icns_sizes = [16, 32, 64, 128, 256, 512, 1024, 32, 64, 256, 512]
   \<and> map snd icns_sizes = [''ic04'', ''ic05'', ''ic06'', ''ic07'', ''ic08'', ''ic09'', ''ic10'',
                           ''ic11'', ''ic12'', ''ic13'', ''ic14'']
   \<and> length icns_sizes = 11
   \<and> distinct (map snd icns_sizes)
   \<and> map (count_list (map fst icns_sizes)) [16, 32, 64, 128, 256, 512, 1024]
        = [1, 2, 2, 1, 2, 2, 1]
   \<and> create_icns R output_path w
        = map_sum id (\<lambda>content. write_file output_path content w) (icns_file R icns_sizes)"
  by (simp add: icns_sizes_def create_icns_def map_sum_def split: sum.splits)

section \<open>Properties of the rasterizer\<close>

text \<open>
  Claim C9.  For every positive size the rasterizer raises nothing and returns an image
  of mode RGBA, \<open>sz\<close> pixels wide and \<open>sz\<close> high, every pixel of which was given the four
  channels \<open>(0, 0, 0, 0)\<close> when the image was made.  (Running out of memory is not part of
  the model.)
\<close>

theorem create_base_icon_bitmap:
  assumes "0 < sz"
  shows "\<exists>img. create_base_icon R sz = Inr img
           \<and> im_mode img = ''RGBA'' \<and> im_size img = (sz, sz) \<and> im_color img = (0, 0, 0, 0)"
  using create_base_icon_Inr [of sz R] assms by (auto simp: canvas_def)

text \<open>
  C9 at size 16, with the sample runtime.
\<close>

theorem create_base_icon_bitmap_witness:
  "(0 :: int) < 16
   \<and> (\<exists>img. create_base_icon sample_runtime 16 = Inr img
           \<and> im_mode img = ''RGBA'' \<and> im_size img = (16, 16) \<and> im_color img = (0, 0, 0, 0))"
  using create_base_icon_bitmap [of 16 sample_runtime] by simp

text \<open>
  Claim C10.  For every positive size and every index of the gradient loop the radius
  \<open>max 1 (sz div 2 - 2 * i)\<close> is at least 1.  So the test \<open>radius > 0\<close> never fails: the
  loop raises nothing and adds exactly \<open>GRADIENT_ITERATIONS\<close> shapes to the image, each an
  ellipse whose bounding box has a positive width and height.
\<close>

theorem gradient_loop_draws_every_ellipse:
  assumes "0 < sz"
  shows "list_all (\<lambda>i. 1 \<le> gradient_radius (sz div 2) i) (py_range GRADIENT_ITERATIONS)
       \<and> (\<exists>new. gradient_loop R (sz div 2) (py_range GRADIENT_ITERATIONS) img
                    = Inr (img\<lparr>im_drawn := im_drawn img @ new\<rparr>)
                \<and> int (length new) = GRADIENT_ITERATIONS
                \<and> list_all proper_ellipse new)"
proof -
  have "list_all (\<lambda>i. 1 \<le> gradient_radius (sz div 2) i) (py_range GRADIENT_ITERATIONS)"
    by (simp add: list_all_iff gradient_radius_ge_1)
  moreover have "int (length (map (gradient_ellipse R (sz div 2)) (py_range GRADIENT_ITERATIONS)))
      = GRADIENT_ITERATIONS"
    by (simp add: length_py_range GRADIENT_ITERATIONS_def)
  moreover have "list_all proper_ellipse
      (map (gradient_ellipse R (sz div 2)) (py_range GRADIENT_ITERATIONS))"
    by (simp add: list_all_iff proper_gradient_ellipse)
  ultimately show ?thesis
    using gradient_loop_Inr [of R "sz div 2" "py_range GRADIENT_ITERATIONS" img] by blast
qed

text \<open>
  C10 at size 16, on a fresh image, with the sample runtime.
\<close>

theorem gradient_loop_draws_every_ellipse_witness:
  "(0 :: int) < 16
   \<and> list_all (\<lambda>i. 1 \<le> gradient_radius (16 div 2) i) (py_range GRADIENT_ITERATIONS)
   \<and> (\<exists>new. gradient_loop sample_runtime (16 div 2) (py_range GRADIENT_ITERATIONS)
                 \<lparr>im_mode = ''RGBA'', im_size = (16, 16), im_color = (0, 0, 0, 0), im_drawn = []\<rparr>
               = Inr \<lparr>im_mode = ''RGBA'', im_size = (16, 16), im_color = (0, 0, 0, 0), im_drawn = new\<rparr>
             \<and> int (length new) = GRADIENT_ITERATIONS
             \<and> list_all proper_ellipse new)"
  using gradient_loop_draws_every_ellipse [of 16 sample_runtime
      "\<lparr>im_mode = ''RGBA'', im_size = (16, 16), im_color = (0, 0, 0, 0), im_drawn = []\<rparr>"]
  by simp

section \<open>Properties of the Windows-icon packer\<close>

text \<open>
  Claim C5.  Given no sizes, the Windows-icon packer raises (\<^verbatim>\<open>images[0]\<close> of an empty
  list is an \<^verbatim>\<open>IndexError\<close>) before Pillow is asked to write anything: there is no blob.
\<close>

theorem ico_file_empty: "ico_file R [] = Inl IndexError"
  by (simp add: ico_file_def)

text \<open>
  Claim C4, evaluated on the size list the script uses.  \<^verbatim>\<open>create_ico\<close> draws the six
  icons of sizes 16, 32, 48, 64, 128, 256 and calls \<^verbatim>\<open>save\<close> on the first of them, the one
  of 16 by 16 pixels, passing all six sizes and the five other icons.  By Pillow's rule
  for the sizes of an ICO file only the size 16 by 16 is written: the directory has one
  entry, not six.
\<close>

theorem create_ico_keeps_one_size:
  "\<exists>first others. base_icons R ico_sizes = Inr (first # others)
     \<and> ico_file R ico_sizes = save_ico R first (map (\<lambda>s. (s, s)) ico_sizes) others
     \<and> im_size first = (16, 16)
     \<and> map im_size others = [(32, 32), (48, 48), (64, 64), (128, 128), (256, 256)]
     \<and> pillow_ico_sizes first (map (\<lambda>s. (s, s)) ico_sizes) = [(16, 16)]"
proof -
  obtain imgs where imgs: "base_icons R ico_sizes = Inr imgs" "list_all2 canvas ico_sizes imgs"
    using base_icons_Inr [of ico_sizes R] by (auto simp: ico_sizes_def)
  from imgs(2) obtain first others where split: "imgs = first # others"
    and first: "canvas 16 first"
    and others: "list_all2 canvas [32, 48, 64, 128, 256] others"
    by (auto simp: ico_sizes_def list_all2_Cons1)
  from others have "map im_size others = [(32, 32), (48, 48), (64, 64), (128, 128), (256, 256)]"
    by (auto simp: list_all2_Cons1 canvas_def)
  moreover have "pillow_ico_sizes first (map (\<lambda>s. (s, s)) ico_sizes) = [(16, 16)]"
    using first by (simp add: pillow_ico_sizes_def ico_sizes_def canvas_def)
  moreover have "ico_file R ico_sizes = save_ico R first (map (\<lambda>s. (s, s)) ico_sizes) others"
    using imgs(1) split by (simp add: ico_file_def)
  ultimately show ?thesis using imgs(1) split first by (auto simp: canvas_def)
qed

end
